theory Spec2Isabelle
  imports Main "HOL-Library.Word"
begin

unbundle bit_operations_syntax

section \<open>Data model of package crc16\<close>

type_synonym uint16 = "16 word"
type_synonym byte = "8 word"

text \<open>
  \<^verbatim>\<open>type Table [256]uint16\<close>: an array of exactly 256 entries. Every index the package
  uses is either a \<^verbatim>\<open>byte\<close> or a loop counter below 256, so an entry is always in range;
  the array is a total function from byte values to entries.
\<close>

type_synonym Table = "byte \<Rightarrow> uint16"

text \<open>
  The package passes tables as \<^verbatim>\<open>*Table\<close>. A pointer is \<open>None\<close> when it is \<^verbatim>\<open>nil\<close> and
  \<open>Some t\<close> when it points to the array \<open>t\<close>. Reading an entry through a nil pointer is
  a run-time panic in Go; it is the only panic of the package. \<^verbatim>\<open>ANSITable\<close> and
  \<^verbatim>\<open>CCITTTable\<close> are package variables initialised once; nothing in the package assigns
  them or writes to their arrays, so they are constants here.
\<close>

datatype panic = NilDereference

text \<open>Go's \<^verbatim>\<open>error\<close> interface; \<^verbatim>\<open>nil\<close> is \<open>None\<close> of \<open>error option\<close>.\<close>

datatype error = Error string

definition Size :: int where
  "Size = 2"

definition ANSI :: uint16 where
  "ANSI = 0x8005"

definition CCITT :: uint16 where
  "CCITT = 0x1021"

text \<open>\<^verbatim>\<open>tab[i]\<close> for \<^verbatim>\<open>tab *Table\<close>.\<close>

definition index :: "Table option \<Rightarrow> byte \<Rightarrow> panic + uint16" where
  "index tb i = (case tb of None \<Rightarrow> Inl NilDereference | Some t \<Rightarrow> Inr (t i))"

text \<open>Sequencing of two computations that may panic.\<close>

definition and_then :: "panic + 'a \<Rightarrow> ('a \<Rightarrow> panic + 'b) \<Rightarrow> panic + 'b" where
  "and_then r f = (case r of Inl e \<Rightarrow> Inl e | Inr x \<Rightarrow> f x)"

section \<open>Table construction\<close>

text \<open>
  The inner loop of \<^verbatim>\<open>makeTable\<close>:
  \<^verbatim>\<open>for j := 0; j < 8; j++ { if crc&1 == 1 { crc = (crc >> 1) ^ poly } else { crc >>= 1 } }\<close>
\<close>

function makeTable_inner :: "uint16 \<Rightarrow> nat \<Rightarrow> uint16 \<Rightarrow> uint16" where
  "makeTable_inner poly j c =
     (if j < 8
      then makeTable_inner poly (j + 1)
             (if c AND 1 = 1 then drop_bit 1 c XOR poly else drop_bit 1 c)
      else c)"
  by pat_completeness auto
termination
  by (relation "measure (\<lambda>(poly, j, c). 8 - j)") auto

declare makeTable_inner.simps [simp del]

text \<open>
  The outer loop:
  \<^verbatim>\<open>for i := 0; i < 256; i++ { crc := uint16(i); ...; t[i] = crc }\<close>
\<close>

function makeTable_outer :: "uint16 \<Rightarrow> nat \<Rightarrow> Table \<Rightarrow> Table" where
  "makeTable_outer poly i t =
     (if i < 256
      then makeTable_outer poly (i + 1) (t(of_nat i := makeTable_inner poly 0 (of_nat i)))
      else t)"
  by pat_completeness auto
termination
  by (relation "measure (\<lambda>(poly, i, t). 256 - i)") auto

declare makeTable_outer.simps [simp del]

text \<open>\<^verbatim>\<open>new(Table)\<close> is a zeroed array; the result is a pointer to it, never nil.\<close>

definition makeTable :: "uint16 \<Rightarrow> Table option" where
  "makeTable poly = Some (makeTable_outer poly 0 (\<lambda>_. 0))"

definition ANSITable :: "Table option" where
  "ANSITable = makeTable ANSI"

definition CCITTTable :: "Table option" where
  "CCITTTable = makeTable CCITT"

definition MakeTable :: "uint16 \<Rightarrow> Table option" where
  "MakeTable poly =
     (if poly = ANSI then ANSITable
      else if poly = CCITT then CCITTTable
      else makeTable poly)"

section \<open>The digest\<close>

record digest =
  crc :: uint16
  tab :: "Table option"

definition New :: "Table option \<Rightarrow> digest" where
  "New tb = \<lparr>crc = 0, tab = tb\<rparr>"

definition NewANSI :: digest where
  "NewANSI = New ANSITable"

definition NewCCITT :: digest where
  "NewCCITT = New CCITTTable"

text \<open>
  Methods take the digest they are called on and return their result together with the
  digest afterwards.
\<close>

definition digest_Size :: "digest \<Rightarrow> int \<times> digest" where
  "digest_Size d = (Size, d)"

definition BlockSize :: "digest \<Rightarrow> int \<times> digest" where
  "BlockSize d = (1, d)"

definition Reset :: "digest \<Rightarrow> digest" where
  "Reset d = d\<lparr>crc := 0\<rparr>"

text \<open>
  The loop of \<^verbatim>\<open>Update\<close>:
  \<^verbatim>\<open>for _, v := range p { crc = tab[byte(crc)^v] ^ (crc >> 8) }\<close>
\<close>

fun Update_loop :: "Table option \<Rightarrow> uint16 \<Rightarrow> byte list \<Rightarrow> panic + uint16" where
  "Update_loop tb c [] = Inr c"
| "Update_loop tb c (v # p) =
     and_then (index tb (ucast c XOR v)) (\<lambda>e. Update_loop tb (e XOR drop_bit 8 c) p)"

definition Update :: "uint16 \<Rightarrow> Table option \<Rightarrow> byte list \<Rightarrow> panic + uint16" where
  "Update c tb p = and_then (Update_loop tb (NOT c) p) (\<lambda>c'. Inr (NOT c'))"

definition Write :: "digest \<Rightarrow> byte list \<Rightarrow> panic + ((int \<times> error option) \<times> digest)" where
  "Write d p =
     and_then (Update (crc d) (tab d) p)
       (\<lambda>c'. Inr ((int (length p), None), d\<lparr>crc := c'\<rparr>))"

definition Sum16 :: "digest \<Rightarrow> uint16 \<times> digest" where
  "Sum16 d = (crc d, d)"

definition Sum :: "digest \<Rightarrow> byte list \<Rightarrow> byte list \<times> digest" where
  "Sum d inp =
     (case Sum16 d of (s, d') \<Rightarrow> (inp @ [ucast (drop_bit 8 s), ucast s], d'))"

definition Checksum :: "byte list \<Rightarrow> Table option \<Rightarrow> panic + uint16" where
  "Checksum data tb = Update 0 tb data"

definition ChecksumANSI :: "byte list \<Rightarrow> panic + uint16" where
  "ChecksumANSI data = Update 0 ANSITable data"

definition ChecksumCCITT :: "byte list \<Rightarrow> panic + uint16" where
  "ChecksumCCITT data = Update 0 CCITTTable data"

section \<open>Reference descriptions\<close>

text \<open>
  One shift-and-conditional-XOR step of the table builder, as the specification words it:
  if the low bit of \<open>crc\<close> is 1 then \<open>(crc >> 1) XOR polynomial\<close>, otherwise \<open>crc >> 1\<close>.
\<close>

definition shift_xor_step :: "uint16 \<Rightarrow> uint16 \<Rightarrow> uint16" where
  "shift_xor_step poly c = (if bit c 0 then drop_bit 1 c XOR poly else drop_bit 1 c)"

text \<open>The entry of byte value \<open>i\<close>: eight such steps starting from \<open>crc = i\<close>.\<close>

definition table_entry_spec :: "uint16 \<Rightarrow> byte \<Rightarrow> uint16" where
  "table_entry_spec poly i = (shift_xor_step poly ^^ 8) (ucast i)"

text \<open>The two bytes of a 16-bit value, by arithmetic on its unsigned reading.\<close>

definition high_byte :: "uint16 \<Rightarrow> byte" where
  "high_byte s = of_nat (unat s div 256)"

definition low_byte :: "uint16 \<Rightarrow> byte" where
  "low_byte s = of_nat (unat s mod 256)"

text \<open>
  The bulk update as the specification words it: complement, fold every byte \<open>b\<close> in order
  with \<open>crc = table[low_byte(crc) XOR b] XOR (crc >> 8)\<close>, complement again.
\<close>

definition update_spec :: "uint16 \<Rightarrow> Table \<Rightarrow> byte list \<Rightarrow> uint16" where
  "update_spec c t data =
     NOT (foldl (\<lambda>c b. t (low_byte c XOR b) XOR drop_bit 8 c) (NOT c) data)"

text \<open>A client that writes the byte sequences \<open>ps\<close> to a digest, one after the other.\<close>

fun writes :: "digest \<Rightarrow> byte list list \<Rightarrow> panic + digest" where
  "writes d [] = Inr d"
| "writes d (p # ps) = and_then (Write d p) (\<lambda>r. writes (snd r) ps)"

section \<open>Sequencing\<close>

lemma and_then_Inr: "and_then (Inr x) f = f x"
  by (simp add: and_then_def)

lemma and_then_Inl: "and_then (Inl e) f = Inl e"
  by (simp add: and_then_def)

lemma and_then_assoc:
  "and_then (and_then r f) g = and_then r (\<lambda>x. and_then (f x) g)"
  by (cases r) (simp_all add: and_then_def)

section \<open>Both loops of the table builder\<close>

lemma low_bit_test: "(c AND 1 = 1) = bit c 0" for c :: uint16
  by (simp only: and_one_eq) (simp add: bit_0 odd_iff_mod_2_eq_one)

lemma makeTable_body:
  "(if c AND 1 = 1 then drop_bit 1 c XOR poly else drop_bit 1 c) = shift_xor_step poly c"
  by (simp only: low_bit_test shift_xor_step_def)

lemma makeTable_inner_funpow:
  "makeTable_inner poly j c = (shift_xor_step poly ^^ (8 - j)) c"
proof (induction poly j c rule: makeTable_inner.induct)
  case (1 poly j c)
  show ?case
  proof (cases "j < 8")
    case True
    then have "8 - j = Suc (8 - (j + 1))" by simp
    then have "(shift_xor_step poly ^^ (8 - j)) c
        = (shift_xor_step poly ^^ (8 - (j + 1))) (shift_xor_step poly c)"
      by (simp only: funpow_Suc_right o_apply)
    moreover have "makeTable_inner poly j c
        = makeTable_inner poly (j + 1) (shift_xor_step poly c)"
      using True by (subst makeTable_inner.simps) (simp only: makeTable_body if_True)
    moreover have "makeTable_inner poly (j + 1) (shift_xor_step poly c)
        = (shift_xor_step poly ^^ (8 - (j + 1))) (shift_xor_step poly c)"
      using "1.IH" [OF True] by (simp only: makeTable_body)
    ultimately show ?thesis by simp
  next
    case False
    then show ?thesis by (subst makeTable_inner.simps) simp
  qed
qed

lemma unat_byte_less: "unat b < 256" for b :: byte
  using unsigned_less [of b, where ?'a = nat] by simp

text \<open>
  The outer loop, started at counter \<open>i\<close>, has written exactly the entries from \<open>i\<close> on
  and left the ones below \<open>i\<close> as they were.
\<close>

lemma makeTable_outer_entry:
  "makeTable_outer poly i t b =
     (if i \<le> unat b then makeTable_inner poly 0 (ucast b) else t b)"
proof (induction poly i t rule: makeTable_outer.induct)
  case (1 poly i t)
  show ?case
  proof (cases "i < 256")
    case True
    have ui: "unat (of_nat i :: byte) = i" using True by (simp add: unat_of_nat)
    have "makeTable_outer poly i t b =
        makeTable_outer poly (i + 1) (t(of_nat i := makeTable_inner poly 0 (of_nat i))) b"
      using True by (subst makeTable_outer.simps) simp
    also have "\<dots> = (if i + 1 \<le> unat b then makeTable_inner poly 0 (ucast b)
         else (t(of_nat i := makeTable_inner poly 0 (of_nat i))) b)"
      using "1.IH" [OF True] .
    also have "\<dots> = (if i \<le> unat b then makeTable_inner poly 0 (ucast b) else t b)"
    proof (cases "b = of_nat i")
      case True
      with ui have ub: "unat b = i" by simp
      have "(ucast b :: uint16) = of_nat (unat b)" by simp
      with ub have "(ucast b :: uint16) = of_nat i" by simp
      with True ub show ?thesis by simp
    next
      case False
      have "unat b \<noteq> i"
      proof
        assume "unat b = i"
        then have "(of_nat i :: byte) = of_nat (unat b)" by simp
        with False show False by simp
      qed
      with False show ?thesis by auto
    qed
    finally show ?thesis .
  next
    case False
    with unat_byte_less [of b] show ?thesis by (subst makeTable_outer.simps) simp
  qed
qed

lemma makeTable_eq: "makeTable poly = Some (table_entry_spec poly)"
  by (simp add: makeTable_def fun_eq_iff makeTable_outer_entry makeTable_inner_funpow
      table_entry_spec_def)

lemma index_makeTable: "index (makeTable poly) b = Inr (table_entry_spec poly b)"
  by (simp add: makeTable_eq index_def)

section \<open>The update loop\<close>

lemma ucast_low_byte: "(ucast c :: byte) = low_byte c" for c :: uint16
proof -
  have "(of_nat (n mod 256) :: byte) = of_nat n" for n
    by (simp add: word_of_nat_eq_iff take_bit_eq_mod)
  from this [of "unat c"] show ?thesis by (simp add: low_byte_def)
qed

lemma ucast_high_byte: "(ucast (drop_bit 8 s) :: byte) = high_byte s" for s :: uint16
proof -
  have "unat (drop_bit 8 s) = unat s div 256"
    by (simp add: drop_bit_eq_div unat_div)
  then have "(of_nat (unat (drop_bit 8 s)) :: byte) = of_nat (unat s div 256)" by simp
  then show ?thesis by (simp add: high_byte_def)
qed

lemma unat_high_low: "unat s = unat (high_byte s) * 256 + unat (low_byte s)"
proof -
  have "unat s < 65536" using unsigned_less [of s, where ?'a = nat] by simp
  then have "unat s div 256 < 256" by simp
  then have "unat (high_byte s) = unat s div 256"
    by (simp add: high_byte_def unat_of_nat)
  moreover have "unat (low_byte s) = unat s mod 256"
    by (simp add: low_byte_def unat_of_nat)
  ultimately show ?thesis by simp
qed

lemma Update_loop_Some:
  "Update_loop (Some t) c p =
     Inr (foldl (\<lambda>c v. t (ucast c XOR v) XOR drop_bit 8 c) c p)"
  by (induction p arbitrary: c) (simp_all add: index_def and_then_def)

text \<open>With a nil table the loop panics at its first byte, and only there.\<close>

lemma Update_loop_None:
  "Update_loop None c p = (if p = [] then Inr c else Inl NilDereference)"
  by (cases p) (simp_all add: index_def and_then_def)

lemma Update_loop_append:
  "Update_loop tb c (a @ b) = and_then (Update_loop tb c a) (\<lambda>c'. Update_loop tb c' b)"
proof (induction a arbitrary: c)
  case Nil
  show ?case by (simp add: and_then_Inr)
next
  case (Cons v a)
  show ?case
    by (cases "index tb (ucast c XOR v)") (simp_all add: and_then_Inl and_then_Inr Cons.IH)
qed

lemma Update_Some:
  "Update c (Some t) p =
     Inr (NOT (foldl (\<lambda>c v. t (ucast c XOR v) XOR drop_bit 8 c) (NOT c) p))"
  by (simp add: Update_def Update_loop_Some and_then_Inr)

text \<open>
  The complement at the exit of one call is undone by the complement at the entry of the
  next, so two calls in a row are one call on the concatenation.
\<close>

lemma Update_append:
  "and_then (Update c tb a) (\<lambda>c'. Update c' tb b) = Update c tb (a @ b)"
  by (cases "Update_loop tb (NOT c) a")
    (simp_all add: Update_def Update_loop_append and_then_Inl and_then_Inr)

lemma Update_Nil: "Update c tb [] = Inr c"
  by (simp add: Update_def and_then_Inr)

section \<open>Writes keep the table\<close>

lemma Write_tab: "Write d p = Inr (r, d') \<Longrightarrow> tab d' = tab d"
  by (cases "Update (crc d) (tab d) p") (auto simp: Write_def and_then_def)

lemma writes_tab: "writes d ps = Inr d' \<Longrightarrow> tab d' = tab d"
proof (induction ps arbitrary: d)
  case Nil
  then show ?case by simp
next
  case (Cons p ps)
  show ?case
  proof (cases "Write d p")
    case (Inl e)
    with Cons.prems show ?thesis by (simp add: and_then_Inl)
  next
    case (Inr r)
    with Cons.prems have "writes (snd r) ps = Inr d'" by (simp add: and_then_Inr)
    then have "tab d' = tab (snd r)" by (rule Cons.IH)
    moreover from Inr have "tab (snd r) = tab d" by (cases r) (simp add: Write_tab)
    ultimately show ?thesis by simp
  qed
qed

lemma writes_returns: "tab d = Some t \<Longrightarrow> \<exists>d'. writes d ps = Inr d'"
proof (induction ps arbitrary: d)
  case Nil
  show ?case by simp
next
  case (Cons p ps)
  from Cons.prems obtain c' where
    w: "Write d p = Inr ((int (length p), None), d\<lparr>crc := c'\<rparr>)"
    by (simp add: Write_def Update_Some and_then_Inr)
  from Cons.prems have "tab (d\<lparr>crc := c'\<rparr>) = Some t" by simp
  then obtain d' where "writes (d\<lparr>crc := c'\<rparr>) ps = Inr d'"
    using Cons.IH by blast
  with w show ?case by (simp add: and_then_Inr)
qed

section \<open>Evaluating the loops on the cached tables\<close>

lemma Update_loop_makeTable_Cons:
  "Update_loop (makeTable poly) c (v # p) =
     Update_loop (makeTable poly) (table_entry_spec poly (ucast c XOR v) XOR drop_bit 8 c) p"
  by (simp add: index_makeTable and_then_Inr)

lemma funpow8: "(f ^^ 8) x = f (f (f (f (f (f (f (f x)))))))"
  by (simp add: eval_nat_numeral)

lemma not_zero_uint16: "NOT (0 :: uint16) = 0xFFFF"
  by simp

lemma ANSI_loop_digits:
  "Update_loop (makeTable ANSI) 0xFFFF [0x31, 0x32, 0x33, 0x34, 0x35, 0x36, 0x37, 0x38, 0x39]
     = Inr 0x3D7B"
  by (simp add: Update_loop_makeTable_Cons table_entry_spec_def funpow8
      shift_xor_step_def ANSI_def bit_0 del: Update_loop.simps(2))

lemma CCITT_loop_digits:
  "Update_loop (makeTable CCITT) 0xFFFF [0x31, 0x32, 0x33, 0x34, 0x35, 0x36, 0x37, 0x38, 0x39]
     = Inr 0x1DBA"
  by (simp add: Update_loop_makeTable_Cons table_entry_spec_def funpow8
      shift_xor_step_def CCITT_def bit_0 del: Update_loop.simps(2))

lemma ANSI_loop_one: "Update_loop (makeTable ANSI) 0xFFFF [0x31] = Inr 0x8AFA"
  by (simp add: Update_loop_makeTable_Cons table_entry_spec_def funpow8
      shift_xor_step_def ANSI_def bit_0 del: Update_loop.simps(2))

lemma Update_ANSITable_one: "Update 0 ANSITable [0x31] = Inr 0x7505"
proof -
  have "NOT (0x8AFA :: uint16) = 0x7505" by simp
  with ANSI_loop_one not_zero_uint16 show ?thesis
    by (simp only: ANSITable_def Update_def and_then_Inr)
qed

lemma tab_NewANSI: "tab NewANSI = Some (table_entry_spec ANSI)"
  by (simp add: NewANSI_def New_def ANSITable_def makeTable_eq)

lemma Write_NewANSI_one:
  "Write NewANSI [0x31] = Inr ((1, None), \<lparr>crc = 0x7505, tab = ANSITable\<rparr>)"
  by (simp add: Write_def NewANSI_def New_def Update_ANSITable_one and_then_Inr)

section \<open>The tables of the bit-reversed polynomials\<close>

text \<open>
  The builder shifts right, so it takes a polynomial in bit-reversed form: 0xA001 for the
  ANSI polynomial 0x8005 and 0x8408 for the CCITT polynomial 0x1021. Neither is one of the
  two cached constants, so \<^verbatim>\<open>MakeTable\<close> builds their tables afresh.
\<close>

lemma MakeTable_A001: "MakeTable 0xA001 = makeTable 0xA001"
  by (simp add: MakeTable_def ANSI_def CCITT_def)

lemma MakeTable_8408: "MakeTable 0x8408 = makeTable 0x8408"
  by (simp add: MakeTable_def ANSI_def CCITT_def)

lemma A001_loop_digits_FFFF:
  "Update_loop (makeTable 0xA001) 0xFFFF
     [0x31, 0x32, 0x33, 0x34, 0x35, 0x36, 0x37, 0x38, 0x39] = Inr 0x4B37"
  by (simp add: Update_loop_makeTable_Cons table_entry_spec_def funpow8
      shift_xor_step_def bit_0 del: Update_loop.simps(2))

lemma A001_loop_digits_0:
  "Update_loop (makeTable 0xA001) 0
     [0x31, 0x32, 0x33, 0x34, 0x35, 0x36, 0x37, 0x38, 0x39] = Inr 0xBB3D"
  by (simp add: Update_loop_makeTable_Cons table_entry_spec_def funpow8
      shift_xor_step_def bit_0 del: Update_loop.simps(2))

lemma P8408_loop_digits_FFFF:
  "Update_loop (makeTable 0x8408) 0xFFFF
     [0x31, 0x32, 0x33, 0x34, 0x35, 0x36, 0x37, 0x38, 0x39] = Inr 0x6F91"
  by (simp add: Update_loop_makeTable_Cons table_entry_spec_def funpow8
      shift_xor_step_def bit_0 del: Update_loop.simps(2))

lemma P8408_loop_digits_0:
  "Update_loop (makeTable 0x8408) 0
     [0x31, 0x32, 0x33, 0x34, 0x35, 0x36, 0x37, 0x38, 0x39] = Inr 0x2189"
  by (simp add: Update_loop_makeTable_Cons table_entry_spec_def funpow8
      shift_xor_step_def bit_0 del: Update_loop.simps(2))

lemma update_spec_eq_fold:
  "update_spec c t p = NOT (foldl (\<lambda>c v. t (ucast c XOR v) XOR drop_bit 8 c) (NOT c) p)"
  by (simp add: update_spec_def ucast_low_byte)

section \<open>Known-answer values\<close>

text \<open>
  What the package returns as it is written, with the cached tables built from the
  constants 0x8005 and 0x1021 as they stand. The comments of the source name these tables
  after the ANSI and CCITT polynomials (Modbus, USB, X.25), whose right-shifting tables are
  those of 0xA001 and 0x8408; the two values below are the check values of no published
  CRC-16.
\<close>

lemma ChecksumANSI_digits_as_built:
  "ChecksumANSI
     [0x31, 0x32, 0x33, 0x34, 0x35, 0x36, 0x37, 0x38, 0x39] = Inr 0xC284"
proof -
  have "NOT (0x3D7B :: uint16) = 0xC284" by simp
  with ANSI_loop_digits not_zero_uint16 show ?thesis
    by (simp only: ChecksumANSI_def ANSITable_def Update_def and_then_Inr)
qed

lemma ChecksumCCITT_digits_as_built:
  "ChecksumCCITT
     [0x31, 0x32, 0x33, 0x34, 0x35, 0x36, 0x37, 0x38, 0x39] = Inr 0xE245"
proof -
  have "NOT (0x1DBA :: uint16) = 0xE245" by simp
  with CCITT_loop_digits not_zero_uint16 show ?thesis
    by (simp only: ChecksumCCITT_def CCITTTable_def Update_def and_then_Inr)
qed

text \<open>
  Claim C1, as amended. The one-shot ANSI checksum follows the complement convention: for
  every byte sequence it returns, without panic, the complement of the table-driven fold
  of the bytes started from the complement of 0 over the cached ANSI table. Under this
  convention the known answer for the nine ASCII bytes of \<^verbatim>\<open>"123456789"\<close> over the table
  of the bit-reversed ANSI polynomial, \<^verbatim>\<open>MakeTable(0xA001)\<close>, is 0xB4C8; the value 0xBB3D
  is that of the same fold started from 0 with neither complement.
\<close>

theorem ChecksumANSI_complement_convention:
  "(\<exists>t. ANSITable = Some t \<and> ChecksumANSI data = Inr (update_spec 0 t data)) \<and>
   Checksum
     [0x31, 0x32, 0x33, 0x34, 0x35, 0x36, 0x37, 0x38, 0x39] (MakeTable 0xA001) = Inr 0xB4C8 \<and>
   Update_loop (MakeTable 0xA001) 0
     [0x31, 0x32, 0x33, 0x34, 0x35, 0x36, 0x37, 0x38, 0x39] = Inr 0xBB3D"
proof -
  have "ANSITable = Some (table_entry_spec ANSI) \<and>
      ChecksumANSI data = Inr (update_spec 0 (table_entry_spec ANSI) data)"
    by (simp add: ChecksumANSI_def ANSITable_def makeTable_eq Update_Some update_spec_eq_fold)
  then have general: "\<exists>t. ANSITable = Some t \<and> ChecksumANSI data = Inr (update_spec 0 t data)"
    by blast
  have "NOT (0x4B37 :: uint16) = 0xB4C8" by simp
  with A001_loop_digits_FFFF not_zero_uint16
  have usb: "Checksum
     [0x31, 0x32, 0x33, 0x34, 0x35, 0x36, 0x37, 0x38, 0x39] (MakeTable 0xA001) = Inr 0xB4C8"
    by (simp only: Checksum_def MakeTable_A001 Update_def and_then_Inr)
  have arc: "Update_loop (MakeTable 0xA001) 0
     [0x31, 0x32, 0x33, 0x34, 0x35, 0x36, 0x37, 0x38, 0x39] = Inr 0xBB3D"
    using A001_loop_digits_0 by (simp only: MakeTable_A001)
  from general usb arc show ?thesis by blast
qed

text \<open>
  Claim C1, as stated, fails: the ANSI checksum of \<^verbatim>\<open>"123456789"\<close> is not 0xBB3D.
\<close>

theorem ChecksumANSI_digits_not_BB3D:
  "ChecksumANSI
     [0x31, 0x32, 0x33, 0x34, 0x35, 0x36, 0x37, 0x38, 0x39] \<noteq> Inr 0xBB3D"
proof -
  have "NOT (0x3D7B :: uint16) \<noteq> 0xBB3D" by simp
  with ANSI_loop_digits not_zero_uint16 show ?thesis
    by (simp only: ChecksumANSI_def ANSITable_def Update_def and_then_Inr
        sum.inject not_False_eq_True)
qed

text \<open>
  Claim C2, as amended. The one-shot CCITT checksum follows the same convention: for every
  byte sequence it returns, without panic, the complement of the right-shifting
  table-driven fold of the bytes started from the complement of 0 over the cached CCITT
  table. Under this convention the known answer for the nine ASCII bytes of
  \<^verbatim>\<open>"123456789"\<close> over the table of the bit-reversed CCITT polynomial,
  \<^verbatim>\<open>MakeTable(0x8408)\<close>, is the X.25 value 0x906E; started from 0 with neither complement
  the same fold gives 0x2189. Neither is 0x31C3.
\<close>

theorem ChecksumCCITT_complement_convention:
  "(\<exists>t. CCITTTable = Some t \<and> ChecksumCCITT data = Inr (update_spec 0 t data)) \<and>
   Checksum
     [0x31, 0x32, 0x33, 0x34, 0x35, 0x36, 0x37, 0x38, 0x39] (MakeTable 0x8408) = Inr 0x906E \<and>
   Update_loop (MakeTable 0x8408) 0
     [0x31, 0x32, 0x33, 0x34, 0x35, 0x36, 0x37, 0x38, 0x39] = Inr 0x2189"
proof -
  have "CCITTTable = Some (table_entry_spec CCITT) \<and>
      ChecksumCCITT data = Inr (update_spec 0 (table_entry_spec CCITT) data)"
    by (simp add: ChecksumCCITT_def CCITTTable_def makeTable_eq Update_Some update_spec_eq_fold)
  then have general:
    "\<exists>t. CCITTTable = Some t \<and> ChecksumCCITT data = Inr (update_spec 0 t data)"
    by blast
  have "NOT (0x6F91 :: uint16) = 0x906E" by simp
  with P8408_loop_digits_FFFF not_zero_uint16
  have x25: "Checksum
     [0x31, 0x32, 0x33, 0x34, 0x35, 0x36, 0x37, 0x38, 0x39] (MakeTable 0x8408) = Inr 0x906E"
    by (simp only: Checksum_def MakeTable_8408 Update_def and_then_Inr)
  have kermit: "Update_loop (MakeTable 0x8408) 0
     [0x31, 0x32, 0x33, 0x34, 0x35, 0x36, 0x37, 0x38, 0x39] = Inr 0x2189"
    using P8408_loop_digits_0 by (simp only: MakeTable_8408)
  from general x25 kermit show ?thesis by blast
qed

text \<open>
  Claim C2, as stated, fails: the CCITT checksum of \<^verbatim>\<open>"123456789"\<close> is not 0x31C3.
\<close>

theorem ChecksumCCITT_digits_not_31C3:
  "ChecksumCCITT
     [0x31, 0x32, 0x33, 0x34, 0x35, 0x36, 0x37, 0x38, 0x39] \<noteq> Inr 0x31C3"
proof -
  have "NOT (0x1DBA :: uint16) \<noteq> 0x31C3" by simp
  with CCITT_loop_digits not_zero_uint16 show ?thesis
    by (simp only: ChecksumCCITT_def CCITTTable_def Update_def and_then_Inr
        sum.inject not_False_eq_True)
qed

section \<open>The update function\<close>

text \<open>
  Claim C3. For every 16-bit \<open>c\<close>, every table \<open>t\<close> and every byte sequence \<open>data\<close>,
  \<^verbatim>\<open>Update(c, t, data)\<close> returns, without panic, the value described in words: complement
  \<open>c\<close>, then for each byte \<open>b\<close> in order \<open>crc = t[low_byte(crc) XOR b] XOR (crc >> 8)\<close>,
  then complement the final value.
\<close>

theorem Update_refines_update_spec:
  "Update c (Some t) data = Inr (update_spec c t data)"
  by (simp add: Update_Some update_spec_def ucast_low_byte)

text \<open>
  Claim C4. Incremental equivalence, for every table pointer \<open>tb\<close> and every split of the
  data into \<open>a\<close> and \<open>b\<close>: updating from 0 with \<open>a\<close> and then with \<open>b\<close> is the one-shot
  checksum of \<open>a @ b\<close>, and so is the \<^verbatim>\<open>Sum16\<close> of a fresh digest after writing \<open>a\<close> and
  then \<open>b\<close>. (With a nil table both sides panic alike.)
\<close>

theorem incremental_equivalence:
  "and_then (Update 0 tb a) (\<lambda>c. Update c tb b) = Checksum (a @ b) tb \<and>
   and_then (Write (New tb) a)
     (\<lambda>r1. and_then (Write (snd r1) b) (\<lambda>r2. Inr (fst (Sum16 (snd r2)))))
     = Checksum (a @ b) tb"
proof
  show first: "and_then (Update 0 tb a) (\<lambda>c. Update c tb b) = Checksum (a @ b) tb"
    by (simp add: Checksum_def Update_append)
  have "and_then (Write (New tb) a)
     (\<lambda>r1. and_then (Write (snd r1) b) (\<lambda>r2. Inr (fst (Sum16 (snd r2)))))
     = and_then (Update 0 tb a) (\<lambda>c. Update c tb b)"
  proof (cases "Update 0 tb a")
    case (Inl e)
    then show ?thesis by (simp add: Write_def New_def and_then_Inl)
  next
    case a: (Inr c)
    show ?thesis
    proof (cases "Update c tb b")
      case (Inl e)
      with a show ?thesis by (simp add: Write_def New_def and_then_Inl and_then_Inr)
    next
      case (Inr c')
      with a show ?thesis by (simp add: Write_def New_def Sum16_def and_then_Inr)
    qed
  qed
  with first show "and_then (Write (New tb) a)
     (\<lambda>r1. and_then (Write (snd r1) b) (\<lambda>r2. Inr (fst (Sum16 (snd r2)))))
     = Checksum (a @ b) tb" by simp
qed

text \<open>
  Claim C5. The checksum of the empty byte sequence is 0 for every table pointer, and so
  for the table of every 16-bit polynomial.
\<close>

theorem Checksum_empty:
  "Checksum [] tb = Inr 0 \<and> Checksum [] (MakeTable poly) = Inr 0"
  by (simp add: Checksum_def Update_Nil)

text \<open>
  Claim C10. \<^verbatim>\<open>Update\<close> on the empty byte sequence returns its \<open>crc\<close> argument, whatever
  the value and the table pointer; an empty \<^verbatim>\<open>Write\<close> reports 0 bytes and no error, and
  leaves the digest, hence its \<^verbatim>\<open>Sum16\<close>, unchanged.
\<close>

theorem Update_empty_identity:
  "Update c tb [] = Inr c \<and> Write d [] = Inr ((0, None), d) \<and>
   and_then (Write d []) (\<lambda>r. Inr (fst (Sum16 (snd r)))) = Inr (fst (Sum16 d))"
  by (simp add: Update_Nil Write_def and_then_Inr Sum16_def)

section \<open>The table builder\<close>

text \<open>
  Claim C6. For every 16-bit polynomial and every byte value \<open>i\<close>, entry \<open>i\<close> of the
  table that \<^verbatim>\<open>MakeTable\<close> returns is the result of eight shift-and-conditional-XOR steps
  from \<open>crc = i\<close>; for ANSI and CCITT the table returned is the cached one, and the same
  holds of it.
\<close>

theorem MakeTable_entry:
  "index (MakeTable poly) i = Inr (table_entry_spec poly i) \<and>
   MakeTable ANSI = ANSITable \<and> index ANSITable i = Inr (table_entry_spec ANSI i) \<and>
   MakeTable CCITT = CCITTTable \<and> index CCITTTable i = Inr (table_entry_spec CCITT i)"
  by (simp add: MakeTable_def ANSITable_def CCITTTable_def index_makeTable)

section \<open>The digest methods\<close>

text \<open>
  Claim C7, as amended. For every digest whose table pointer is not nil and every byte
  sequence \<open>p\<close>, the empty one included, \<^verbatim>\<open>Update\<close> returns a value, \<^verbatim>\<open>Write(p)\<close> sets the
  digest's \<open>crc\<close> to it and changes nothing else, returns no error, and returns the byte
  count \<open>len(p)\<close>.
\<close>

theorem Write_with_table:
  "tab d = Some t \<Longrightarrow>
   \<exists>c'. Update (crc d) (tab d) p = Inr c' \<and>
        Write d p = Inr ((int (length p), None), d\<lparr>crc := c'\<rparr>)"
  by (simp add: Write_def Update_Some and_then_Inr)

theorem Write_with_table_witness:
  "tab NewANSI = Some (table_entry_spec ANSI) \<and>
   (\<exists>c'. Update (crc NewANSI) (tab NewANSI) [0x31] = Inr c' \<and>
         Write NewANSI [0x31] = Inr ((int (length [0x31 :: byte]), None), NewANSI\<lparr>crc := c'\<rparr>))"
  using Write_with_table [OF tab_NewANSI, of "[0x31]"] tab_NewANSI by simp

text \<open>
  Claim C7, as stated, fails: a digest made by \<^verbatim>\<open>New(nil)\<close> is a digest, and writing one
  byte to it panics in \<^verbatim>\<open>Update\<close> instead of returning a byte count.
\<close>

theorem Write_nil_table_panics:
  "Write (New None) [0x31] = Inl NilDereference"
  by (simp add: Write_def New_def Update_def index_def and_then_def)

text \<open>
  Claim C8. For every digest and every prefix, \<^verbatim>\<open>Sum(prefix)\<close> is the prefix followed by
  exactly two bytes, the high byte of \<^verbatim>\<open>Sum16()\<close> and then its low byte, which together
  are its big-endian encoding; \<^verbatim>\<open>Sum16\<close> returns the current \<open>crc\<close>; neither changes the
  digest.
\<close>

theorem Sum_big_endian:
  "Sum d inp = (inp @ [high_byte (fst (Sum16 d)), low_byte (fst (Sum16 d))], d) \<and>
   Sum16 d = (crc d, d) \<and>
   unat (fst (Sum16 d)) =
     unat (high_byte (fst (Sum16 d))) * 256 + unat (low_byte (fst (Sum16 d)))"
proof -
  have "Sum d inp = (inp @ [high_byte (crc d), low_byte (crc d)], d)"
    by (simp add: Sum_def Sum16_def ucast_high_byte) (simp add: ucast_low_byte)
  moreover have "unat (crc d) = unat (high_byte (crc d)) * 256 + unat (low_byte (crc d))"
    by (rule unat_high_low)
  ultimately show ?thesis by (simp add: Sum16_def)
qed

text \<open>
  Claim C9. For every digest, \<^verbatim>\<open>Reset\<close> sets \<open>crc\<close> to 0 and leaves the table pointer as
  it was, which makes the digest equal to a fresh one over the same table. So a digest
  reached from \<^verbatim>\<open>New(tb)\<close> by any sequence of writes has, after \<^verbatim>\<open>Reset\<close>, \<^verbatim>\<open>Sum16\<close> 0 and
  is equal to \<^verbatim>\<open>New(tb)\<close>; over a table every sequence of writes does reach a digest.
\<close>

theorem Reset_like_New:
  "crc (Reset d) = 0 \<and> tab (Reset d) = tab d \<and> Reset d = New (tab d) \<and>
   (writes (New tb) ps = Inr d \<longrightarrow> fst (Sum16 (Reset d)) = 0 \<and> Reset d = New tb) \<and>
   (\<exists>d'. writes (New (Some t)) ps = Inr d')"
proof -
  have "\<exists>d'. writes (New (Some t)) ps = Inr d'"
    by (rule writes_returns [of _ t]) (simp add: New_def)
  with writes_tab [of "New tb" ps d] show ?thesis
    by (auto simp: Reset_def New_def Sum16_def)
qed

theorem Reset_like_New_witness:
  "writes NewANSI [[0x31]] = Inr \<lparr>crc = 0x7505, tab = ANSITable\<rparr> \<and>
   fst (Sum16 (Reset \<lparr>crc = 0x7505, tab = ANSITable\<rparr>)) = 0 \<and>
   Reset \<lparr>crc = 0x7505, tab = ANSITable\<rparr> = NewANSI"
proof -
  let ?d = "\<lparr>crc = 0x7505, tab = ANSITable\<rparr>"
  have w: "writes (New ANSITable) [[0x31]] = Inr ?d"
    using Write_NewANSI_one by (simp add: NewANSI_def and_then_Inr)
  have "writes (New ANSITable) [[0x31]] = Inr ?d \<longrightarrow>
      fst (Sum16 (Reset ?d)) = 0 \<and> Reset ?d = New ANSITable"
    using Reset_like_New [of ?d ANSITable "[[0x31]]" "table_entry_spec ANSI"]
    by (elim conjE) assumption
  from this w have "fst (Sum16 (Reset ?d)) = 0 \<and> Reset ?d = New ANSITable"
    by (rule mp)
  with w show ?thesis unfolding NewANSI_def by blast
qed

end
